theory Spec2Isabelle
  imports Main
begin

section \<open>JavaScript values\<close>

text \<open>
  The logger is dynamically typed: it probes its arguments with \<open>typeof\<close>, the
  \<open>in\<close> operator, truthiness and destructuring with defaults. The values it can meet
  are modelled by one datatype. Numbers are the integers and NaN (levels, format ids,
  line and column numbers are integers; fractions and infinities are left out, and
  an integer is neither rounded to 53 bits nor printed in exponent notation, as
  JavaScript does from 22 digits on). Strings are lists of character codes below
  256. An object is the list of the properties a read finds on it, in insertion
  order, over \<open>Object.prototype\<close>; accessors, proxies and objects that shadow the
  conversion methods \<open>toString\<close> and \<open>valueOf\<close> are left out. \<open>JObjectPrototype\<close> is
  the object \<open>Object.prototype\<close> itself. A function value is opaque:
  \<open>SlackFormatter\<close> is \<open>_slackFormatter\<close> of lib/formats.js, \<open>Native k\<close> is the
  built-in method of \<open>Object.prototype\<close> named \<open>k\<close>, \<open>User n\<close> is the caller's
  n-th function. What a function does when called is given by the environment.
\<close>

datatype fn = SlackFormatter | Native string | User nat

datatype jsval =
    JUndefined
  | JNull
  | JBool bool
  | JNum int
  | JNaN
  | JStr string
  | JFun fn
  | JObj "(string \<times> jsval) list"
  | JObjectPrototype

text \<open>\<open>typeof v\<close>.\<close>

fun js_typeof :: "jsval \<Rightarrow> string" where
  "js_typeof JUndefined = ''undefined''"
| "js_typeof JNull = ''object''"
| "js_typeof (JBool b) = ''boolean''"
| "js_typeof (JNum n) = ''number''"
| "js_typeof JNaN = ''number''"
| "js_typeof (JStr s) = ''string''"
| "js_typeof (JFun f) = ''function''"
| "js_typeof (JObj ps) = ''object''"
| "js_typeof JObjectPrototype = ''object''"

text \<open>Truthiness, as \<open>&&\<close>, \<open>||\<close>, \<open>!\<close>, \<open>if\<close> and \<open>assert\<close> read a value.\<close>

fun truthy :: "jsval \<Rightarrow> bool" where
  "truthy JUndefined = False"
| "truthy JNull = False"
| "truthy (JBool b) = b"
| "truthy (JNum n) = (n \<noteq> 0)"
| "truthy JNaN = False"
| "truthy (JStr s) = (s \<noteq> [])"
| "truthy (JFun f) = True"
| "truthy (JObj ps) = True"
| "truthy JObjectPrototype = True"

text \<open>\<open>a || b\<close>.\<close>

definition js_or :: "jsval \<Rightarrow> jsval \<Rightarrow> jsval" where
  "js_or a b = (if truthy a then a else b)"

text \<open>\<open>String(n)\<close> for an integer: the decimal numeral, with a minus sign below zero.\<close>

definition digitChar :: "nat \<Rightarrow> char" where
  "digitChar d = ''0123456789'' ! d"

fun natToString :: "nat \<Rightarrow> string" where
  "natToString n = (if n < 10 then [digitChar n] else natToString (n div 10) @ [digitChar (n mod 10)])"

declare natToString.simps [simp del]

definition intToString :: "int \<Rightarrow> string" where
  "intToString i = (if i < 0 then CHR ''-'' # natToString (nat (- i)) else natToString (nat i))"

text \<open>
  The property key of a value used as \<open>k\<close> in \<open>k in obj\<close> and \<open>obj[k]\<close>. The key of a
  function is its source text, which is never a name in any table of this program:
  it is \<open>None\<close>, and no table has it.
\<close>

fun toPropertyKey :: "jsval \<Rightarrow> string option" where
  "toPropertyKey JUndefined = Some ''undefined''"
| "toPropertyKey JNull = Some ''null''"
| "toPropertyKey (JBool b) = Some (if b then ''true'' else ''false'')"
| "toPropertyKey (JNum n) = Some (intToString n)"
| "toPropertyKey JNaN = Some ''NaN''"
| "toPropertyKey (JStr s) = Some s"
| "toPropertyKey (JFun f) = None"
| "toPropertyKey (JObj ps) = Some ''[object Object]''"
| "toPropertyKey JObjectPrototype = Some ''[object Object]''"

text \<open>
  Every object literal inherits the properties of \<open>Object.prototype\<close>: the operator
  \<open>in\<close> and a property read see them as well as the object's own properties.
\<close>

definition objectPrototype :: "string list" where
  "objectPrototype =
     [''constructor'', ''__defineGetter__'', ''__defineSetter__'', ''hasOwnProperty'',
      ''__lookupGetter__'', ''__lookupSetter__'', ''isPrototypeOf'',
      ''propertyIsEnumerable'', ''toString'', ''valueOf'', ''__proto__'',
      ''toLocaleString'']"

definition inherited :: "string \<Rightarrow> jsval" where
  "inherited k =
     (if k = ''__proto__'' then JObjectPrototype
      else if k \<in> set objectPrototype then JFun (Native k)
      else JUndefined)"

text \<open>\<open>k in obj\<close> for an object literal with the own properties \<open>ps\<close>.\<close>

definition js_in :: "jsval \<Rightarrow> (string \<times> jsval) list \<Rightarrow> bool" where
  "js_in k ps =
     (case toPropertyKey k of
        None \<Rightarrow> False
      | Some s \<Rightarrow> s \<in> fst ` set ps \<or> s \<in> set objectPrototype)"

text \<open>\<open>obj[k]\<close> for an object literal with the own properties \<open>ps\<close>.\<close>

definition js_get :: "(string \<times> jsval) list \<Rightarrow> jsval \<Rightarrow> jsval" where
  "js_get ps k =
     (case toPropertyKey k of
        None \<Rightarrow> JUndefined
      | Some s \<Rightarrow> (case map_of ps s of Some v \<Rightarrow> v | None \<Rightarrow> inherited s))"

text \<open>
  \<open>v[k]\<close> and \<open>v.name\<close> for a value \<open>v\<close> that is neither \<open>undefined\<close> nor \<open>null\<close>
  (reading a property off those raises a TypeError, which each caller below writes
  out). The program reads the properties send, format, appName, minLevel, colors,
  message, name, stack and context off its arguments, and levels off the colour
  map. A primitive has none of these, so a read off it falls through to
  \<open>Object.prototype\<close>; so does a read off a function, whose own \<open>name\<close> and \<open>length\<close>
  are not modelled, as the characters and the length of a string are not (\<open>log\<close>
  rejects a function as its input, and \<open>setConfig\<close> a string as its colour map,
  before reading them).
\<close>

fun js_index :: "jsval \<Rightarrow> jsval \<Rightarrow> jsval" where
  "js_index (JObj ps) k = js_get ps k"
| "js_index v k = js_get [] k"

definition getProp :: "jsval \<Rightarrow> string \<Rightarrow> jsval" where
  "getProp v name = js_index v (JStr name)"

definition nullish :: "jsval \<Rightarrow> bool" where
  "nullish v = (v = JUndefined \<or> v = JNull)"

text \<open>\<open>a && b\<close>.\<close>

definition js_and :: "jsval \<Rightarrow> jsval \<Rightarrow> jsval" where
  "js_and a b = (if truthy a then b else a)"

section \<open>Constants (lib/constants.js, lib/formats.js)\<close>

definition logLevels :: "(string \<times> jsval) list" where
  "logLevels =
     [(''DEBUG'', JNum 1), (''INFO'', JNum 2), (''WARNING'', JNum 3),
      (''ERROR'', JNum 4), (''CRITICAL'', JNum 5)]"

definition logLevelNames :: "(string \<times> jsval) list" where
  "logLevelNames =
     [(''1'', JStr ''DEBUG''), (''2'', JStr ''INFO''), (''3'', JStr ''WARNING''),
      (''4'', JStr ''ERROR''), (''5'', JStr ''CRITICAL'')]"

definition defaultColors :: "(string \<times> jsval) list" where
  "defaultColors =
     [(''1'', JStr ''#eee''), (''2'', JStr ''#0f0''), (''3'', JStr ''#ff0''),
      (''4'', JStr ''#f00''), (''5'', JStr ''#f00'')]"

definition logFormats :: "(string \<times> jsval) list" where
  "logFormats = [(''SLACK'', JNum 1)]"

definition logFormatNames :: "(string \<times> jsval) list" where
  "logFormatNames = [(''1'', JStr ''SLACK'')]"

definition defaultFormats :: "(string \<times> jsval) list" where
  "defaultFormats = [(''1'', JFun SlackFormatter)]"

section \<open>Errors\<close>

text \<open>
  Every error the library raises is a plain \<open>Error\<close> told apart by its message:
  \<open>UnknownLevel\<close> is "Unknown level: ...", \<open>UnknownFormat\<close> is "Invalid format
  function", \<open>InvalidConfig\<close> and \<open>InvalidLogCall\<close> are the two "Invalid arguments.
  Required: ..." errors of \<open>setConfig\<close> and \<open>log\<close>, \<open>InvalidFormatter\<close> is "Failed
  to format log event body:", \<open>NotConfigured\<close> is "... does not yet exist, please
  supply config.". \<open>TypeError\<close> is raised by the language itself (a property read off
  \<open>undefined\<close> or \<open>null\<close>, a call of a value that is not a function, a path that is
  not a string). \<open>Thrown v\<close> is the value \<open>v\<close> that a callback threw or rejected
  with, passed on unchanged.
\<close>

datatype exn =
    UnknownLevel
  | UnknownFormat
  | InvalidConfig
  | InvalidLogCall
  | InvalidFormatter
  | NotConfigured
  | TypeError
  | Thrown jsval

section \<open>Level and format resolution (lib/index.js)\<close>

definition getLevel :: "jsval \<Rightarrow> exn + jsval" where
  "getLevel level =
     (if js_in level logLevelNames then Inr level
      else if js_in level logLevels then Inr (js_get logLevels level)
      else Inl UnknownLevel)"

definition getFormat :: "jsval \<Rightarrow> exn + jsval" where
  "getFormat format =
     (if js_in format logFormatNames then Inr (js_get defaultFormats format)
      else if js_in format logFormats then Inr (js_get defaultFormats (js_get logFormats format))
      else if js_typeof format = ''function'' then Inr format
      else Inl UnknownFormat)"

section \<open>The stack-frame pattern\<close>

text \<open>
  \<open>_errorTrailRE\<close> is the regular expression
  \<^verbatim>\<open>/at(?:\s(\S*))?\s\(?([^\s)]+):(\d+):(\d+)\)?/\<close>
  with the groups scope, path, line and column. The matcher below is a backtracking
  matcher for the constructs the pattern uses: single-character items, sequence, the
  greedy optional \<open>?\<close>, the greedy \<open>*\<close> and \<open>+\<close> on an item, and capture groups.
  \<open>run r (s, c)\<close> lists every way \<open>r\<close> matches a prefix of \<open>s\<close> as the pair of the
  text left over and the captures, in the order in which a backtracking matcher tries
  them; the first is the match.
\<close>

datatype atom = Chr char | Space | Digit

datatype item = Is atom | IsNot atom | NoneOf "atom list"

datatype regex =
    Eps
  | Item item
  | Seq regex regex
  | Opt regex
  | Star item
  | Plus item
  | Group nat regex

text \<open>\<open>\s\<close> and \<open>\d\<close> on character codes below 256.\<close>

definition isSpace :: "char \<Rightarrow> bool" where
  "isSpace c =
     (c \<in> set [CHR 0x09, CHR 0x0A, CHR 0x0B, CHR 0x0C, CHR 0x0D, CHR '' '', CHR 0xA0])"

definition isDigit :: "char \<Rightarrow> bool" where
  "isDigit c = (c \<in> set ''0123456789'')"

fun atomOk :: "atom \<Rightarrow> char \<Rightarrow> bool" where
  "atomOk (Chr x) c = (c = x)"
| "atomOk Space c = isSpace c"
| "atomOk Digit c = isDigit c"

fun itemOk :: "item \<Rightarrow> char \<Rightarrow> bool" where
  "itemOk (Is a) c = atomOk a c"
| "itemOk (IsNot a) c = (\<not> atomOk a c)"
| "itemOk (NoneOf as) c = (\<not> list_ex (\<lambda>a. atomOk a c) as)"

type_synonym caps = "nat \<Rightarrow> string option"

fun run :: "regex \<Rightarrow> string \<times> caps \<Rightarrow> (string \<times> caps) list" where
  "run Eps st = [st]"
| "run (Item i) (s, c) =
     (case s of [] \<Rightarrow> [] | x # xs \<Rightarrow> if itemOk i x then [(xs, c)] else [])"
| "run (Seq a b) st = concat (map (run b) (run a st))"
| "run (Opt a) st = run a st @ [st]"
| "run (Star i) (s, c) =
     map (\<lambda>n. (drop n s, c)) (rev [0 ..< Suc (length (takeWhile (itemOk i) s))])"
| "run (Plus i) (s, c) =
     map (\<lambda>n. (drop n s, c)) (rev [1 ..< Suc (length (takeWhile (itemOk i) s))])"
| "run (Group g a) (s, c) =
     map (\<lambda>(r, c'). (r, c'(g \<mapsto> take (length s - length r) s))) (run a (s, c))"

fun seqs :: "regex list \<Rightarrow> regex" where
  "seqs [] = Eps"
| "seqs (r # rs) = Seq r (seqs rs)"

definition errorTrailRE :: regex where
  "errorTrailRE =
     seqs [Item (Is (Chr CHR ''a'')), Item (Is (Chr CHR ''t'')),
           Opt (seqs [Item (Is Space), Group 1 (Star (IsNot Space))]),
           Item (Is Space),
           Opt (Item (Is (Chr CHR ''(''))),
           Group 2 (Plus (NoneOf [Space, Chr CHR '')''])),
           Item (Is (Chr CHR '':'')),
           Group 3 (Plus (Is Digit)),
           Item (Is (Chr CHR '':'')),
           Group 4 (Plus (Is Digit)),
           Opt (Item (Is (Chr CHR '')'')))]"

text \<open>
  \<open>re.exec(s)\<close> tries the pattern at every index from \<open>lastIndex\<close> on and takes the
  first index with a match; it gives the captures and the index after the match (the
  new \<open>lastIndex\<close> of a global expression). The pattern has no anchor and no
  lookbehind, so matching at an index is matching the text from that index.
\<close>

fun search :: "regex \<Rightarrow> string \<Rightarrow> (string \<times> caps) option" where
  "search r [] = (case run r ([], Map.empty) of [] \<Rightarrow> None | m # ms \<Rightarrow> Some m)"
| "search r (x # xs) =
     (case run r (x # xs, Map.empty) of [] \<Rightarrow> search r xs | m # ms \<Rightarrow> Some m)"

definition exec :: "regex \<Rightarrow> string \<Rightarrow> nat \<Rightarrow> (caps \<times> nat) option" where
  "exec r s lastIndex =
     (if length s < lastIndex then None
      else case search r (drop lastIndex s) of
             None \<Rightarrow> None
           | Some (rest, c) \<Rightarrow> Some (c, length s - length rest))"

text \<open>
  \<open>parseInt(x, 10)\<close> of a capture: leading white space, an optional sign, then the
  longest run of digits; NaN when there is no digit (as for \<open>undefined\<close>, whose text
  is "undefined").
\<close>

definition digitVal :: "char \<Rightarrow> nat" where
  "digitVal c = of_char c - 48"

definition digitsValue :: "string \<Rightarrow> nat" where
  "digitsValue ds = foldl (\<lambda>acc d. 10 * acc + digitVal d) 0 ds"

definition parseDigits :: "int \<Rightarrow> string \<Rightarrow> jsval" where
  "parseDigits sign s =
     (let ds = takeWhile isDigit s
      in if ds = [] then JNaN else JNum (sign * int (digitsValue ds)))"

definition parseInt10 :: "string option \<Rightarrow> jsval" where
  "parseInt10 x =
     (case x of
        None \<Rightarrow> JNaN
      | Some s \<Rightarrow>
          (case dropWhile isSpace s of
             [] \<Rightarrow> JNaN
           | d # t \<Rightarrow>
               if d = CHR ''-'' then parseDigits (- 1) t
               else if d = CHR ''+'' then parseDigits 1 t
               else parseDigits 1 (d # t)))"

section \<open>Log events and the environment\<close>

text \<open>
  \<open>LogEventValues\<close>, the object \<open>_getLogValues\<close> builds and the formatter receives.
  The trail is an object: \<open>{}\<close> or \<open>{ scope, file, line, column }\<close>.
\<close>

record logEvent =
  ev_appName :: jsval
  ev_level :: jsval
  ev_levelName :: jsval
  ev_color :: jsval
  ev_name :: jsval
  ev_message :: jsval
  ev_stack :: jsval
  ev_trail :: jsval
  ev_context :: jsval

text \<open>
  What the code takes from outside, in a process started from a CommonJS main
  module: \<open>__filename\<close>, \<open>require.main.path\<close>, \<open>path.relative\<close>, the text
  \<open>Error().stack\<close> captured in \<open>_getLogValues\<close>, the source text of a function (what
  \<open>String(f)\<close> gives), and what the formatter and the send callback do when called:
  \<open>Inl v\<close> when the call throws \<open>v\<close> (for \<open>send\<close>, also when the promise it returns
  rejects with \<open>v\<close>), \<open>Inr v\<close> when it returns \<open>v\<close> (for \<open>send\<close>, when its promise
  resolves to \<open>v\<close>).
\<close>

record env =
  filename :: string
  mainPath :: string
  relative :: "string \<Rightarrow> string \<Rightarrow> string"
  errorStack :: string
  fnText :: "fn \<Rightarrow> string"
  callFormat :: "fn \<Rightarrow> logEvent \<Rightarrow> jsval + jsval"
  callSend :: "fn \<Rightarrow> jsval \<Rightarrow> jsval + jsval"

section \<open>The trail extractor\<close>

text \<open>
  \<open>_getTrailFromErrorStack(stack, excludeCurrentModule)\<close>. With the flag the
  expression is global and each \<open>re.exec\<close> goes on from \<open>lastIndex\<close>; without it every
  \<open>re.exec\<close> starts from index 0. \<open>path.relative\<close> raises a TypeError when the file
  is not a string. The loop ends because a match of \<open>_errorTrailRE\<close> is never empty,
  so that \<open>lastIndex\<close> moves forward with every match.
\<close>

function trailLoop :: "env \<Rightarrow> string \<Rightarrow> bool \<Rightarrow> nat \<Rightarrow> exn + jsval" where
  "trailLoop E stack excludeCurrentModule lastIndex =
     (case exec errorTrailRE stack (if excludeCurrentModule then lastIndex else 0) of
        None \<Rightarrow> Inr (JObj [])
      | Some (matches, lastIndex') \<Rightarrow>
          if excludeCurrentModule \<and> matches 2 = Some (filename E)
          then trailLoop E stack excludeCurrentModule lastIndex'
          else (case matches 2 of
                  None \<Rightarrow> Inl TypeError
                | Some file \<Rightarrow>
                    Inr (JObj [(''scope'', case matches 1 of None \<Rightarrow> JUndefined | Some sc \<Rightarrow> JStr sc),
                               (''file'', JStr (relative E (mainPath E) file)),
                               (''line'', parseInt10 (matches 3)),
                               (''column'', parseInt10 (matches 4))])))"
  by pat_completeness auto
termination
proof (relation "measure (\<lambda>(E, stack, excludeCurrentModule, lastIndex). length stack - lastIndex)")
  show "wf (measure (\<lambda>(E, stack, excludeCurrentModule, lastIndex). length stack - lastIndex))"
    by simp
next
  fix E :: env and stack excludeCurrentModule lastIndex x2 matches lastIndex'
  assume x: "exec errorTrailRE stack (if excludeCurrentModule then lastIndex else 0) = Some x2"
    and p: "(matches, lastIndex') = x2"
    and c: "excludeCurrentModule \<and> matches 2 = Some (filename E)"
  txt \<open>A match leaves no more text than it started from.\<close>
  have le: "length r' \<le> length s" if "(r', c') \<in> set (run r (s, c))" for r r' c' s c
    using that
  proof (induction r arbitrary: s c r' c')
    case (Item i)
    then show ?case by (auto split: list.splits if_splits)
  next
    case (Seq a b)
    then show ?case by fastforce
  next
    case (Opt a)
    then show ?case by fastforce
  next
    case (Group g a)
    then show ?case by fastforce
  qed auto
  txt \<open>A match of the pattern starts with "a": it is never empty.\<close>
  have shorter: "length r' < length s" if m: "(r', c') \<in> set (run errorTrailRE (s, c))"
    for r' c' s c
  proof -
    obtain R where R: "errorTrailRE = Seq (Item (Is (Chr CHR ''a''))) R"
      by (simp add: errorTrailRE_def)
    from m obtain t ct where
      t: "(t, ct) \<in> set (run (Item (Is (Chr CHR ''a''))) (s, c))" and
      r: "(r', c') \<in> set (run R (t, ct))"
      unfolding R by auto
    from t have "length t < length s" by (auto split: list.splits if_splits)
    moreover from r have "length r' \<le> length t" by (rule le)
    ultimately show ?thesis by simp
  qed
  have found: "length rest < length s" if "search errorTrailRE s = Some (rest, c')"
    for rest c' s
    using that
  proof (induction s)
    case Nil
    then have "(rest, c') \<in> set (run errorTrailRE ([], Map.empty))"
      by (auto split: list.splits)
    then show ?case by (rule shorter)
  next
    case (Cons a s)
    show ?case
    proof (cases "run errorTrailRE (a # s, Map.empty)")
      case Nil
      with Cons show ?thesis by fastforce
    next
      case (Cons m ms)
      with Cons.prems have "(rest, c') \<in> set (run errorTrailRE (a # s, Map.empty))" by simp
      then show ?thesis by (rule shorter)
    qed
  qed
  from x p c have e: "exec errorTrailRE stack lastIndex = Some (matches, lastIndex')" by simp
  then have i: "lastIndex \<le> length stack"
    by (auto simp: exec_def split: if_splits)
  from e obtain rest where
    s: "search errorTrailRE (drop lastIndex stack) = Some (rest, matches)" and
    l: "lastIndex' = length stack - length rest"
    by (auto simp: exec_def split: if_splits option.splits)
  from found [OF s] have "length rest < length stack - lastIndex" by simp
  with i l have "lastIndex < lastIndex' \<and> lastIndex' \<le> length stack" by auto
  then show "((E, stack, excludeCurrentModule, lastIndex'), (E, stack, excludeCurrentModule, lastIndex))
          \<in> measure (\<lambda>(E, stack, excludeCurrentModule, lastIndex). length stack - lastIndex)"
    by simp arith
qed

declare trailLoop.simps [simp del]

definition getTrailFromErrorStack :: "env \<Rightarrow> string \<Rightarrow> bool \<Rightarrow> exn + jsval" where
  "getTrailFromErrorStack E stack excludeCurrentModule =
     trailLoop E stack excludeCurrentModule 0"

section \<open>Conversions and comparison\<close>

text \<open>\<open>String(v)\<close>, as \<open>re.exec\<close> converts its argument.\<close>

fun js_toString :: "env \<Rightarrow> jsval \<Rightarrow> string" where
  "js_toString E (JFun f) = fnText E f"
| "js_toString E v = (case toPropertyKey v of Some s \<Rightarrow> s | None \<Rightarrow> [])"

text \<open>
  \<open>Number(s)\<close> for a string: white space is trimmed, the empty text is 0, a decimal
  numeral with an optional sign is its value, anything else is NaN (\<open>None\<close>).
  Fractions, exponents, hexadecimal numerals and Infinity are not modelled.
\<close>

definition stringToNumber :: "string \<Rightarrow> int option" where
  "stringToNumber s =
     (let t = rev (dropWhile isSpace (rev (dropWhile isSpace s)))
      in case t of
           [] \<Rightarrow> Some 0
         | d # u \<Rightarrow>
             let (sign, ds) =
               (if d = CHR ''-'' then (- 1, u) else if d = CHR ''+'' then (1, u) else (1, t))
             in if ds \<noteq> [] \<and> list_all isDigit ds then Some (sign * int (digitsValue ds))
                else None)"

fun toPrimitive :: "env \<Rightarrow> jsval \<Rightarrow> jsval" where
  "toPrimitive E (JFun f) = JStr (fnText E f)"
| "toPrimitive E (JObj ps) = JStr ''[object Object]''"
| "toPrimitive E JObjectPrototype = JStr ''[object Object]''"
| "toPrimitive E v = v"

fun toNumber :: "jsval \<Rightarrow> int option" where
  "toNumber JUndefined = None"
| "toNumber JNull = Some 0"
| "toNumber (JBool b) = Some (if b then 1 else 0)"
| "toNumber (JNum n) = Some n"
| "toNumber JNaN = None"
| "toNumber (JStr s) = stringToNumber s"
| "toNumber v = None"

fun stringLess :: "string \<Rightarrow> string \<Rightarrow> bool" where
  "stringLess [] [] = False"
| "stringLess [] (y # ys) = True"
| "stringLess (x # xs) [] = False"
| "stringLess (x # xs) (y # ys) =
     (if x = y then stringLess xs ys else (of_char x :: nat) < of_char y)"

text \<open>
  \<open>a < b\<close>: two strings are compared by their character codes, anything else as
  numbers, and a comparison with NaN is false.
\<close>

definition js_lt :: "env \<Rightarrow> jsval \<Rightarrow> jsval \<Rightarrow> bool" where
  "js_lt E a b =
     (case (toPrimitive E a, toPrimitive E b) of
        (JStr s, JStr t) \<Rightarrow> stringLess s t
      | (x, y) \<Rightarrow>
          (case (toNumber x, toNumber y) of
             (Some m, Some n) \<Rightarrow> m < n
           | _ \<Rightarrow> False))"

section \<open>The event normaliser\<close>

text \<open>
  \<open>_getLogValues({ appName, level, colors, errorOrMessageOrOptions, context })\<close>.
  Destructuring a value that is \<open>undefined\<close> or \<open>null\<close> raises a TypeError.
\<close>

definition getLogValues ::
  "env \<Rightarrow> jsval \<Rightarrow> jsval \<Rightarrow> jsval \<Rightarrow> jsval \<Rightarrow> jsval \<Rightarrow> exn + logEvent" where
  "getLogValues E appName level colors errorOrMessageOrOptions context =
     (if js_typeof errorOrMessageOrOptions \<noteq> ''string'' \<and> nullish errorOrMessageOrOptions
      then Inl TypeError
      else
        let (name, message, stack, optionsContext, trail) =
          (if js_typeof errorOrMessageOrOptions = ''string''
           then (JUndefined, errorOrMessageOrOptions, JUndefined, JUndefined,
                 getTrailFromErrorStack E (errorStack E) True)
           else
             let name = getProp errorOrMessageOrOptions ''name'';
                 message = getProp errorOrMessageOrOptions ''message'';
                 stack = getProp errorOrMessageOrOptions ''stack'';
                 optionsContext = getProp errorOrMessageOrOptions ''context''
             in (name, message, stack, optionsContext,
                 getTrailFromErrorStack E
                   (if truthy stack then js_toString E stack else errorStack E)
                   (truthy stack)))
        in case trail of
             Inl e \<Rightarrow> Inl e
           | Inr tr \<Rightarrow>
               Inr \<lparr> ev_appName = appName,
                     ev_level = level,
                     ev_levelName = js_get logLevelNames level,
                     ev_color = js_or (js_and colors (js_index colors level))
                                      (js_get defaultColors level),
                     ev_name = name,
                     ev_message = message,
                     ev_stack = stack,
                     ev_trail = tr,
                     ev_context = js_or context (js_or optionsContext (JObj [])) \<rparr>)"

section \<open>The logger\<close>

text \<open>
  The fields \<open>_send\<close>, \<open>_format\<close>, \<open>_appName\<close>, \<open>_minLevel\<close> and \<open>_colors\<close> of a
  \<open>Logger\<close>. A field never assigned reads as \<open>undefined\<close>: \<open>newObject\<close> is the object
  the constructor starts from.
\<close>

record logger =
  lg_send :: jsval
  lg_format :: jsval
  lg_appName :: jsval
  lg_minLevel :: jsval
  lg_colors :: jsval

definition newObject :: logger where
  "newObject = \<lparr> lg_send = JUndefined, lg_format = JUndefined, lg_appName = JUndefined,
                  lg_minLevel = JUndefined, lg_colors = JUndefined \<rparr>"

text \<open>\<open>{ name = dflt } = config\<close> for a \<open>config\<close> that is neither \<open>undefined\<close> nor \<open>null\<close>.\<close>

definition destructure :: "jsval \<Rightarrow> string \<Rightarrow> jsval \<Rightarrow> jsval" where
  "destructure config name dflt =
     (if getProp config name = JUndefined then dflt else getProp config name)"

text \<open>
  \<open>setConfig(config)\<close> returns the outcome and the logger as the call leaves it. The
  \<open>try\<close> block raises when the destructuring does (\<open>config\<close> is \<open>undefined\<close> or
  \<open>null\<close>) or when the assertion fails; either way the \<open>catch\<close> raises the "Invalid
  arguments" error. The five assignments follow in the source's order, so an error
  raised between them would leave the earlier ones done.
\<close>

definition configAccepted :: "jsval \<Rightarrow> jsval \<Rightarrow> jsval \<Rightarrow> jsval \<Rightarrow> jsval \<Rightarrow> bool" where
  "configAccepted send format appName minLevel colors =
     (js_typeof send = ''function''
      \<and> (js_typeof format = ''function'' \<or> js_in format logFormats \<or> js_in format logFormatNames)
      \<and> (js_in minLevel logLevels \<or> js_in minLevel logLevelNames)
      \<and> js_typeof appName = ''string'' \<and> truthy appName
      \<and> js_typeof colors \<in> set [''undefined'', ''object''] \<and> colors \<noteq> JNull)"

definition setConfig :: "logger \<Rightarrow> jsval \<Rightarrow> (exn + unit) \<times> logger" where
  "setConfig this config =
     (if nullish config then (Inl InvalidConfig, this)
      else
        let send = destructure config ''send'' (lg_send this);
            format = destructure config ''format'' (js_or (lg_format this) (js_get logFormats (JStr ''SLACK'')));
            appName = destructure config ''appName'' (js_or (lg_appName this) (JStr ''My App''));
            minLevel = destructure config ''minLevel'' (js_or (lg_minLevel this) (js_get logLevels (JStr ''WARNING'')));
            colors = destructure config ''colors'' (lg_colors this)
        in if \<not> configAccepted send format appName minLevel colors
           then (Inl InvalidConfig, this)
           else
             let this1 = this\<lparr>lg_send := send\<rparr>
             in case getFormat format of
                  Inl e \<Rightarrow> (Inl e, this1)
                | Inr f \<Rightarrow>
                    let this2 = this1\<lparr>lg_format := f, lg_appName := appName\<rparr>
                    in case getLevel minLevel of
                         Inl e \<Rightarrow> (Inl e, this2)
                       | Inr l \<Rightarrow> (Inr (), this2\<lparr>lg_minLevel := l, lg_colors := colors\<rparr>))"

text \<open>\<open>new Logger(config)\<close>: when the constructor raises there is no logger.\<close>

definition newLogger :: "jsval \<Rightarrow> exn + logger" where
  "newLogger config =
     (case setConfig newObject config of
        (Inl e, this) \<Rightarrow> Inl e
      | (Inr u, this) \<Rightarrow> Inr this)"

subsection \<open>log\<close>

text \<open>
  The assertion of \<open>log\<close> on its arguments: the conjunct on the level, and the
  conjuncts on the input and the context.
\<close>

definition validLogArgs :: "jsval \<Rightarrow> jsval \<Rightarrow> bool" where
  "validLogArgs errorOrMessageOrOptions context =
     (truthy errorOrMessageOrOptions
      \<and> (js_typeof errorOrMessageOrOptions = ''string''
          \<or> (js_typeof errorOrMessageOrOptions = ''object''
              \<and> js_typeof (getProp errorOrMessageOrOptions ''message'') = ''string''
              \<and> truthy (getProp errorOrMessageOrOptions ''message'')
              \<and> js_typeof (getProp errorOrMessageOrOptions ''name'') \<in> set [''undefined'', ''string'']
              \<and> js_typeof (getProp errorOrMessageOrOptions ''stack'') \<in> set [''undefined'', ''string'']
              \<and> js_typeof (getProp errorOrMessageOrOptions ''context'') \<in> set [''undefined'', ''object'']
              \<and> getProp errorOrMessageOrOptions ''context'' \<noteq> JNull))
      \<and> js_typeof context \<in> set [''undefined'', ''object'']
      \<and> context \<noteq> JNull)"

definition validLogCall :: "jsval \<Rightarrow> jsval \<Rightarrow> jsval \<Rightarrow> bool" where
  "validLogCall level errorOrMessageOrOptions context =
     ((js_in level logLevels \<or> js_in level logLevelNames)
      \<and> validLogArgs errorOrMessageOrOptions context)"

text \<open>
  What a call of \<open>log\<close> does to the outside: the calls of the formatter and of the
  send callback, in order, each with its argument.
\<close>

datatype effect = FormatCalled fn logEvent | SendCalled fn jsval

text \<open>
  Calling a value that is not a function raises a TypeError (an object with a
  message) and calls nothing.
\<close>

definition notAFunction :: jsval where
  "notAFunction = JObj [(''name'', JStr ''TypeError''), (''message'', JStr ''not a function'')]"

definition invokeFormat :: "env \<Rightarrow> jsval \<Rightarrow> logEvent \<Rightarrow> (jsval + jsval) \<times> effect list" where
  "invokeFormat E f logValues =
     (case f of
        JFun g \<Rightarrow> (callFormat E g logValues, [FormatCalled g logValues])
      | _ \<Rightarrow> (Inl notAFunction, []))"

definition invokeSend :: "env \<Rightarrow> jsval \<Rightarrow> jsval \<Rightarrow> (jsval + jsval) \<times> effect list" where
  "invokeSend E f body =
     (case f of
        JFun g \<Rightarrow> (callSend E g body, [SendCalled g body])
      | _ \<Rightarrow> (Inl notAFunction, []))"

text \<open>
  \<open>log(level, errorOrMessageOrOptions, context)\<close> is asynchronous: \<open>Inl e\<close> is a
  promise rejected with \<open>e\<close>, \<open>Inr v\<close> one resolved to \<open>v\<close>. The \<open>catch\<close> around the
  formatter reads \<open>err.message\<close> to build its error, which raises a TypeError when
  the value thrown is \<open>undefined\<close> or \<open>null\<close>.
\<close>

definition log :: "env \<Rightarrow> logger \<Rightarrow> jsval \<Rightarrow> jsval \<Rightarrow> jsval \<Rightarrow> (exn + jsval) \<times> effect list" where
  "log E this level errorOrMessageOrOptions context =
     (if \<not> validLogCall level errorOrMessageOrOptions context then (Inl InvalidLogCall, [])
      else
        case getLevel level of
          Inl e \<Rightarrow> (Inl e, [])
        | Inr safeLevel \<Rightarrow>
            if js_lt E safeLevel (lg_minLevel this) then (Inr JUndefined, [])
            else
              case getLogValues E (lg_appName this) safeLevel (lg_colors this)
                     errorOrMessageOrOptions context of
                Inl e \<Rightarrow> (Inl e, [])
              | Inr logValues \<Rightarrow>
                  (case invokeFormat E (lg_format this) logValues of
                     (Inl err, fx) \<Rightarrow>
                       (if nullish err then Inl TypeError else Inl InvalidFormatter, fx)
                   | (Inr body, fx) \<Rightarrow>
                       (case invokeSend E (lg_send this) body of
                          (Inl v, sx) \<Rightarrow> (Inl (Thrown v), fx @ sx)
                        | (Inr v, sx) \<Rightarrow> (Inr v, fx @ sx))))"

definition debug :: "env \<Rightarrow> logger \<Rightarrow> jsval \<Rightarrow> jsval \<Rightarrow> (exn + jsval) \<times> effect list" where
  "debug E this errorOrMessageOrOptions context =
     log E this (js_get logLevels (JStr ''DEBUG'')) errorOrMessageOrOptions context"

definition info :: "env \<Rightarrow> logger \<Rightarrow> jsval \<Rightarrow> jsval \<Rightarrow> (exn + jsval) \<times> effect list" where
  "info E this errorOrMessageOrOptions context =
     log E this (js_get logLevels (JStr ''INFO'')) errorOrMessageOrOptions context"

definition warning :: "env \<Rightarrow> logger \<Rightarrow> jsval \<Rightarrow> jsval \<Rightarrow> (exn + jsval) \<times> effect list" where
  "warning E this errorOrMessageOrOptions context =
     log E this (js_get logLevels (JStr ''WARNING'')) errorOrMessageOrOptions context"

definition error :: "env \<Rightarrow> logger \<Rightarrow> jsval \<Rightarrow> jsval \<Rightarrow> (exn + jsval) \<times> effect list" where
  "error E this errorOrMessageOrOptions context =
     log E this (js_get logLevels (JStr ''ERROR'')) errorOrMessageOrOptions context"

definition critical :: "env \<Rightarrow> logger \<Rightarrow> jsval \<Rightarrow> jsval \<Rightarrow> (exn + jsval) \<times> effect list" where
  "critical E this errorOrMessageOrOptions context =
     log E this (js_get logLevels (JStr ''CRITICAL'')) errorOrMessageOrOptions context"

section \<open>The registry\<close>

text \<open>
  \<open>_loggers\<close> is an object literal used as a map: its keys are property keys, the
  text of the id or the symbol \<open>Symbol.for('default')\<close>. A \<open>Logger\<close> lives in the slot
  it was created in and is never replaced, so the slot is its identity:
  \<open>LoggerAt k\<close> is the reference to the logger in slot \<open>k\<close>. \<open>_loggers\<close> inherits from
  \<open>Object.prototype\<close> like every object literal: \<open>Inherited v\<close> is the inherited
  value \<open>v\<close> when \<open>_loggers[id]\<close> reads one.
\<close>

datatype key = Default | Key string

type_synonym registry = "key \<Rightarrow> logger option"

datatype handle = LoggerAt key | Inherited jsval

definition loggerId :: "jsval \<Rightarrow> key" where
  "loggerId idOrConfig =
     (if js_typeof idOrConfig \<in> set [''string'', ''number'']
      then (case toPropertyKey idOrConfig of Some s \<Rightarrow> Key s | None \<Rightarrow> Default)
      else Default)"

definition inRegistry :: "key \<Rightarrow> registry \<Rightarrow> bool" where
  "inRegistry k loggers =
     (case loggers k of
        Some this \<Rightarrow> True
      | None \<Rightarrow> (case k of Key s \<Rightarrow> s \<in> set objectPrototype | Default \<Rightarrow> False))"

definition getLogger :: "jsval \<Rightarrow> jsval \<Rightarrow> registry \<Rightarrow> (exn + handle) \<times> registry" where
  "getLogger idOrConfig config loggers =
     (let id = loggerId idOrConfig;
          loggerConfig = (if js_typeof idOrConfig = ''object'' then idOrConfig else config)
      in if inRegistry id loggers
         then (case loggers id of
                 Some this \<Rightarrow>
                   if truthy loggerConfig
                   then (case setConfig this loggerConfig of
                           (Inl e, this') \<Rightarrow> (Inl e, loggers(id \<mapsto> this'))
                         | (Inr u, this') \<Rightarrow> (Inr (LoggerAt id), loggers(id \<mapsto> this')))
                   else (Inr (LoggerAt id), loggers)
               | None \<Rightarrow>
                   if truthy loggerConfig then (Inl TypeError, loggers)
                   else (Inr (Inherited (case id of Key s \<Rightarrow> inherited s | Default \<Rightarrow> JUndefined)),
                         loggers))
         else if \<not> truthy loggerConfig then (Inl NotConfigured, loggers)
         else (case newLogger loggerConfig of
                 Inl e \<Rightarrow> (Inl e, loggers)
               | Inr this \<Rightarrow> (Inr (LoggerAt id), loggers(id \<mapsto> this))))"

section \<open>Auxiliary predicates and an example environment\<close>

text \<open>A non-empty text of decimal digits: what \<open>\d+\<close> captures.\<close>

definition digitString :: "string \<Rightarrow> bool" where
  "digitString s = (s \<noteq> [] \<and> list_all isDigit s)"

text \<open>
  The frame that \<open>re.exec\<close> finds in the stack from \<open>lastIndex\<close> on: the file it
  captures and the index after it.
\<close>

definition frameAt :: "string \<Rightarrow> nat \<Rightarrow> (string option \<times> nat) option" where
  "frameAt stack lastIndex =
     (case exec errorTrailRE stack lastIndex of
        None \<Rightarrow> None
      | Some (matches, lastIndex') \<Rightarrow> Some (matches 2, lastIndex'))"

text \<open>
  Every frame of the stack that the global expression finds from \<open>lastIndex\<close> on, one
  \<open>re.exec\<close> after the other, is in the logging module's own file (there may be
  none): these are the stacks on which the extractor, told to exclude its own
  module, skips every frame.
\<close>

inductive allExcluded :: "env \<Rightarrow> string \<Rightarrow> nat \<Rightarrow> bool" where
  noMatch: "frameAt stack lastIndex = None \<Longrightarrow> allExcluded E stack lastIndex"
| ownFrame: "frameAt stack lastIndex = Some (Some (filename E), lastIndex') \<Longrightarrow>
     allExcluded E stack lastIndex' \<Longrightarrow> allExcluded E stack lastIndex"

code_pred allExcluded .

text \<open>
  The state a successful \<open>setConfig\<close> leaves: a callable \<open>_send\<close>, a resolved
  \<open>_format\<close>, a non-empty \<open>_appName\<close>, a \<open>_minLevel\<close> that \<open>_getLevel\<close> returned and
  a colour map that is absent or an object.
\<close>

definition validConfiguration :: "logger \<Rightarrow> bool" where
  "validConfiguration this =
     (js_typeof (lg_send this) = ''function''
      \<and> js_typeof (lg_format this) = ''function''
      \<and> js_typeof (lg_appName this) = ''string'' \<and> truthy (lg_appName this)
      \<and> js_in (lg_minLevel this) logLevelNames
      \<and> js_typeof (lg_colors this) \<in> set [''undefined'', ''object'']
      \<and> lg_colors this \<noteq> JNull)"

text \<open>
  An environment to run the definitions in: an application in \<open>/app\<close> whose main
  module is \<open>/app/main.js\<close>, the logging module at \<open>/app/lib/index.js\<close>, and the stack
  that \<open>Error().stack\<close> captures inside \<open>_getLogValues\<close> when \<open>main\<close> calls \<open>log\<close>.
  \<open>path.relative\<close> is only needed for files below the main directory, where it
  strips the directory. The caller's function 1 is a formatter that throws
  \<open>undefined\<close>, function 2 one that throws an \<open>Error\<close>; every other formatter
  returns a payload, and \<open>send\<close> resolves.
\<close>

definition stripPrefix :: "string \<Rightarrow> string \<Rightarrow> string" where
  "stripPrefix from to =
     (if take (Suc (length from)) to = from @ ''/'' then drop (Suc (length from)) to else to)"

definition exampleStack :: string where
  "exampleStack =
     ''Error'' @ [CHR 0x0A] @
     ''    at _getLogValues (/app/lib/index.js:108:52)'' @ [CHR 0x0A] @
     ''    at Logger.log (/app/lib/index.js:207:23)'' @ [CHR 0x0A] @
     ''    at main (/app/main.js:3:10)''"

definition exampleEnv :: env where
  "exampleEnv =
     \<lparr> filename = ''/app/lib/index.js'',
       mainPath = ''/app'',
       relative = stripPrefix,
       errorStack = exampleStack,
       fnText = (\<lambda>f. ''() => {}''),
       callFormat = (\<lambda>f logValues.
          if f = User 1 then Inl JUndefined
          else if f = User 2 then Inl (JObj [(''message'', JStr ''broken'')])
          else Inr (JStr ''payload'')),
       callSend = (\<lambda>f body. Inr (JStr ''ok'')) \<rparr>"

definition exampleLogger :: logger where
  "exampleLogger =
     \<lparr> lg_send = JFun (User 0), lg_format = JFun SlackFormatter, lg_appName = JStr ''App'',
       lg_minLevel = JNum 3, lg_colors = JUndefined \<rparr>"

text \<open>
  The stack of the "Invalid arguments" error that \<open>log\<close> itself raises when \<open>main\<close>
  calls it with bad arguments: its first frame is in the logging module.
\<close>

definition explicitStack :: string where
  "explicitStack =
     ''Error: Invalid arguments'' @ [CHR 0x0A] @
     ''    at Logger.log (/app/lib/index.js:198:13)'' @ [CHR 0x0A] @
     ''    at main (/app/main.js:7:16)''"

section \<open>Properties\<close>

subsection \<open>The matcher's captures\<close>

lemma in_run_Seq:
  "x \<in> set (run (Seq a b) st) \<longleftrightarrow> (\<exists>st' \<in> set (run a st). x \<in> set (run b st'))"
  by auto

lemma in_run_Item:
  "(r, c') \<in> set (run (Item i) (s, c)) \<longleftrightarrow> (\<exists>x. s = x # r \<and> itemOk i x \<and> c' = c)"
  by (auto split: list.splits)

lemma in_run_Eps: "x \<in> set (run Eps st) \<longleftrightarrow> x = st"
  by simp

lemma itemOk_Digit: "itemOk (Is Digit) = isDigit"
  by (rule ext) simp

lemma in_run_Opt: "x \<in> set (run (Opt a) st) \<longleftrightarrow> x \<in> set (run a st) \<or> x = st"
  by auto

lemma in_run_Group_Plus:
  "(r, c') \<in> set (run (Group g (Plus i)) (s, c)) \<longleftrightarrow>
     (\<exists>n. 1 \<le> n \<and> n \<le> length (takeWhile (itemOk i) s) \<and> r = drop n s \<and> c' = c(g \<mapsto> take n s))"
proof -
  have *: "n \<le> length (takeWhile (itemOk i) s) \<Longrightarrow> length s - (length s - n) = n" for n
    using length_takeWhile_le [of "itemOk i" s] by simp
  show ?thesis by (auto simp: * image_iff)
qed

lemma in_run_Group_Star:
  "(r, c') \<in> set (run (Group g (Star i)) (s, c)) \<Longrightarrow> \<exists>t. c' = c(g \<mapsto> t)"
  by auto

lemma take_takeWhile_digits:
  assumes "1 \<le> n" "n \<le> length (takeWhile isDigit s)"
  shows "digitString (take n s)"
proof -
  have "take n s = take n (takeWhile isDigit s @ dropWhile isDigit s)" by simp
  also have "\<dots> = take n (takeWhile isDigit s)" using assms(2)
    by (simp only: take_append diff_is_0_eq' take_0 append_Nil2)
  finally have t: "take n s = take n (takeWhile isDigit s)" .
  have "list_all isDigit (takeWhile isDigit s)"
    by (simp add: list_all_iff) (meson set_takeWhileD)
  then have "list_all isDigit (take n s)"
    unfolding t list_all_iff by (meson in_set_takeD)
  moreover have "take n s \<noteq> []" using assms t by auto
  ultimately show ?thesis by (simp add: digitString_def)
qed

lemma digit_not_sign: "isDigit d \<Longrightarrow> \<not> isSpace d \<and> d \<noteq> CHR ''-'' \<and> d \<noteq> CHR ''+''"
  by (auto simp: isDigit_def isSpace_def)

lemma parseInt10_digits:
  assumes "digitString l"
  shows "parseInt10 (Some l) = JNum (int (digitsValue l))"
proof -
  from assms obtain d t where l: "l = d # t" and d: "isDigit d" and a: "list_all isDigit l"
    by (cases l) (auto simp: digitString_def)
  from a have tw: "takeWhile isDigit l = l" by (simp add: list_all_iff)
  from d have ns: "\<not> isSpace d" "d \<noteq> CHR ''-''" "d \<noteq> CHR ''+''" using digit_not_sign by auto
  have "parseInt10 (Some l) = parseDigits 1 l" using ns by (simp add: parseInt10_def l)
  also have "\<dots> = JNum (int (digitsValue l))" using tw l by (simp add: parseDigits_def)
  finally show ?thesis .
qed

lemma run_errorTrailRE_caps:
  assumes "(r, m) \<in> set (run errorTrailRE (s, c))"
  shows "\<exists>f l col. m 2 = Some f \<and> m 3 = Some l \<and> m 4 = Some col \<and> digitString l \<and> digitString col"
  using assms unfolding errorTrailRE_def seqs.simps
  by (auto simp: in_run_Seq in_run_Eps in_run_Item in_run_Opt in_run_Group_Plus itemOk_Digit
      take_takeWhile_digits dest!: in_run_Group_Star simp del: run.simps itemOk.simps)

lemma search_found:
  "search r s = Some (rest, c) \<Longrightarrow>
     \<exists>n \<le> length s. (rest, c) \<in> set (run r (drop n s, Map.empty))"
proof (induction s)
  case Nil
  then show ?case by (auto split: list.splits)
next
  case (Cons x xs)
  show ?case
  proof (cases "run r (x # xs, Map.empty)")
    case Nil
    with Cons.prems have "search r xs = Some (rest, c)" by simp
    from Cons.IH [OF this] obtain n where
      "n \<le> length xs" "(rest, c) \<in> set (run r (drop n xs, Map.empty))" by blast
    then have "Suc n \<le> length (x # xs) \<and> (rest, c) \<in> set (run r (drop (Suc n) (x # xs), Map.empty))"
      by simp
    then show ?thesis by blast
  next
    case (Cons m ms)
    with Cons.prems have "(rest, c) \<in> set (run r (drop 0 (x # xs), Map.empty))" by simp
    then show ?thesis by blast
  qed
qed

lemma exec_errorTrailRE_caps:
  assumes "exec errorTrailRE s i = Some (m, e)"
  shows "\<exists>f l col. m 2 = Some f \<and> m 3 = Some l \<and> m 4 = Some col \<and> digitString l \<and> digitString col"
proof -
  from assms obtain rest where "search errorTrailRE (drop i s) = Some (rest, m)"
    by (auto simp: exec_def split: if_splits option.splits)
  from search_found [OF this] obtain n where
    "(rest, m) \<in> set (run errorTrailRE (drop n (drop i s), Map.empty))" by blast
  then show ?thesis by (rule run_errorTrailRE_caps)
qed

lemma trailLoop_shape:
  "trailLoop E stack x i = Inr (JObj []) \<or>
   (\<exists>sc f l c. trailLoop E stack x i =
        Inr (JObj [(''scope'', sc), (''file'', JStr f), (''line'', JNum (int l)), (''column'', JNum (int c))])
      \<and> (sc = JUndefined \<or> (\<exists>t. sc = JStr t)))"
proof (induction E stack x i rule: trailLoop.induct)
  case (1 E stack x i)
  show ?case
  proof (cases "exec errorTrailRE stack (if x then i else 0)")
    case None
    then show ?thesis by (simp add: trailLoop.simps)
  next
    case (Some a)
    obtain m e where a: "a = (m, e)" by (cases a)
    from exec_errorTrailRE_caps [OF Some [unfolded a]] obtain f l col where
      caps: "m 2 = Some f" "m 3 = Some l" "m 4 = Some col" "digitString l" "digitString col"
      by blast
    show ?thesis
    proof (cases "x \<and> m 2 = Some (filename E)")
      case True
      have "trailLoop E stack x i = trailLoop E stack x e"
        using Some a True by (subst trailLoop.simps) simp
      with "1.IH" [OF Some a [symmetric] True] show ?thesis by simp
    next
      case False
      have "trailLoop E stack x i =
        Inr (JObj [(''scope'', case m 1 of None \<Rightarrow> JUndefined | Some sc \<Rightarrow> JStr sc),
                   (''file'', JStr (relative E (mainPath E) f)),
                   (''line'', JNum (int (digitsValue l))),
                   (''column'', JNum (int (digitsValue col)))])"
        using Some a False caps
        by (subst trailLoop.simps) (auto simp: parseInt10_digits)
      moreover have "(case m 1 of None \<Rightarrow> JUndefined | Some sc \<Rightarrow> JStr sc) = JUndefined
          \<or> (\<exists>t. (case m 1 of None \<Rightarrow> JUndefined | Some sc \<Rightarrow> JStr sc) = JStr t)"
        by (cases "m 1") auto
      ultimately show ?thesis by blast
    qed
  qed
qed


lemma getTrailFromErrorStack_total:
  "\<exists>tr. getTrailFromErrorStack E stack b = Inr tr"
  using trailLoop_shape [of E stack b 0] unfolding getTrailFromErrorStack_def by auto


subsection \<open>The trail extractor\<close>

lemma trailLoop_excluded:
  assumes "allExcluded E stack i"
  shows "trailLoop E stack True i = Inr (JObj [])"
  using assms
proof (induction rule: allExcluded.induct)
  case (noMatch stack lastIndex E)
  then have "exec errorTrailRE stack lastIndex = None"
    by (simp add: frameAt_def split: option.splits prod.splits)
  then show ?case by (subst trailLoop.simps) simp
next
  case (ownFrame stack lastIndex E lastIndex')
  then obtain m where "exec errorTrailRE stack lastIndex = Some (m, lastIndex')"
    and "m 2 = Some (filename E)"
    by (auto simp: frameAt_def split: option.splits prod.splits)
  with ownFrame.IH show ?case by (subst trailLoop.simps) simp
qed

lemma trailLoop_empty:
  "trailLoop E stack b i = Inr (JObj []) \<Longrightarrow> b \<Longrightarrow> allExcluded E stack i"
proof (induction E stack b i rule: trailLoop.induct)
  case (1 E stack b i)
  show ?case
  proof (cases "exec errorTrailRE stack i")
    case None
    then have "frameAt stack i = None" by (simp add: frameAt_def)
    then show ?thesis by (rule allExcluded.noMatch)
  next
    case (Some a)
    obtain m e where a: "a = (m, e)" by (cases a)
    from Some a have ex: "exec errorTrailRE stack (if b then i else 0) = Some (m, e)"
      using "1.prems"(2) by simp
    show ?thesis
    proof (cases "m 2 = Some (filename E)")
      case True
      have "trailLoop E stack b i = trailLoop E stack b e"
        using ex True "1.prems"(2) by (subst trailLoop.simps) simp
      with "1.prems"(1) have "trailLoop E stack b e = Inr (JObj [])" by simp
      moreover have "b \<and> m 2 = Some (filename E)" using True "1.prems"(2) by simp
      ultimately have "allExcluded E stack e"
        using "1.IH" [OF ex refl] "1.prems"(2) by blast
      moreover have "frameAt stack i = Some (Some (filename E), e)"
        using Some a True by (simp add: frameAt_def)
      ultimately show ?thesis by (rule allExcluded.ownFrame [rotated])
    next
      case False
      have "trailLoop E stack b i \<noteq> Inr (JObj [])"
        using ex False by (subst trailLoop.simps) (simp split: option.splits)
      with "1.prems"(1) show ?thesis by simp
    qed
  qed
qed

lemma trailLoop_not_excluding:
  "trailLoop E stack False i = Inr (JObj []) \<longleftrightarrow> exec errorTrailRE stack 0 = None"
  by (subst trailLoop.simps) (simp split: option.splits prod.splits)

lemma trailLoop_kept:
  "trailLoop E stack b i = Inr (JObj [(''scope'', sc), (''file'', JStr p), (''line'', l), (''column'', c)])
   \<Longrightarrow> b \<Longrightarrow> \<exists>f. f \<noteq> filename E \<and> p = relative E (mainPath E) f"
proof (induction E stack b i rule: trailLoop.induct)
  case (1 E stack b i)
  show ?case
  proof (cases "exec errorTrailRE stack i")
    case None
    with "1.prems" show ?thesis by (subst (asm) trailLoop.simps) simp
  next
    case (Some a)
    obtain m e where a: "a = (m, e)" by (cases a)
    from Some a have ex: "exec errorTrailRE stack (if b then i else 0) = Some (m, e)"
      using "1.prems"(2) by simp
    show ?thesis
    proof (cases "m 2 = Some (filename E)")
      case True
      have "trailLoop E stack b i = trailLoop E stack b e"
        using ex True "1.prems"(2) by (subst trailLoop.simps) simp
      with "1.prems"(1) have "trailLoop E stack b e =
          Inr (JObj [(''scope'', sc), (''file'', JStr p), (''line'', l), (''column'', c)])"
        by simp
      moreover have "b \<and> m 2 = Some (filename E)" using True "1.prems"(2) by simp
      ultimately show ?thesis using "1.IH" [OF ex refl] "1.prems"(2) by blast
    next
      case False
      have "trailLoop E stack b i =
          (case m 2 of None \<Rightarrow> Inl TypeError
           | Some file \<Rightarrow>
               Inr (JObj [(''scope'', case m 1 of None \<Rightarrow> JUndefined | Some sc \<Rightarrow> JStr sc),
                          (''file'', JStr (relative E (mainPath E) file)),
                          (''line'', parseInt10 (m 3)),
                          (''column'', parseInt10 (m 4))]))"
        using ex False by (subst trailLoop.simps) simp
      with "1.prems"(1) False show ?thesis by (auto split: option.splits)
    qed
  qed
qed

lemma trailLoop_first_frame:
  "frameAt stack 0 = Some (Some f, e) \<Longrightarrow>
   \<exists>sc l c. trailLoop E stack False i =
      Inr (JObj [(''scope'', sc), (''file'', JStr (relative E (mainPath E) f)),
                 (''line'', l), (''column'', c)])"
  by (subst trailLoop.simps) (auto simp: frameAt_def split: option.splits prod.splits)

text \<open>
  C7. For every stack text and either value of the flag, the trail extractor returns
  (it raises nothing, and its loop ends): the result is the empty trail \<open>{}\<close>, or a
  trail with a file, a line number and a column number together, whose scope is a
  text or \<open>undefined\<close>. When the pattern matches nowhere in the stack the result is
  the empty trail. Told to exclude its own module, the extractor returns the empty
  trail exactly when every frame it finds is in the logging module's file (or it
  finds none), and a trail it returns is never of that file; not told so, it
  returns the empty trail exactly when the pattern matches nowhere, and otherwise
  the trail of the first frame.
\<close>

theorem getTrailFromErrorStack_shape:
  "(getTrailFromErrorStack E stack excludeCurrentModule = Inr (JObj []) \<or>
    (\<exists>sc f l c.
        getTrailFromErrorStack E stack excludeCurrentModule =
          Inr (JObj [(''scope'', sc), (''file'', JStr f),
                     (''line'', JNum (int l)), (''column'', JNum (int c))])
        \<and> (sc = JUndefined \<or> (\<exists>t. sc = JStr t))))
   \<and> (exec errorTrailRE stack 0 = None \<longrightarrow>
        getTrailFromErrorStack E stack excludeCurrentModule = Inr (JObj []))
   \<and> (getTrailFromErrorStack E stack True = Inr (JObj []) \<longleftrightarrow> allExcluded E stack 0)
   \<and> (getTrailFromErrorStack E stack False = Inr (JObj []) \<longleftrightarrow>
        exec errorTrailRE stack 0 = None)
   \<and> (\<forall>sc p l c.
         getTrailFromErrorStack E stack True =
           Inr (JObj [(''scope'', sc), (''file'', JStr p), (''line'', l), (''column'', c)])
         \<longrightarrow> (\<exists>f. f \<noteq> filename E \<and> p = relative E (mainPath E) f))
   \<and> (\<forall>f e. frameAt stack 0 = Some (Some f, e) \<longrightarrow>
         (\<exists>sc l c. getTrailFromErrorStack E stack False =
            Inr (JObj [(''scope'', sc), (''file'', JStr (relative E (mainPath E) f)),
                       (''line'', l), (''column'', c)])))"
proof (intro conjI)
  show "getTrailFromErrorStack E stack excludeCurrentModule = Inr (JObj []) \<or>
    (\<exists>sc f l c.
        getTrailFromErrorStack E stack excludeCurrentModule =
          Inr (JObj [(''scope'', sc), (''file'', JStr f),
                     (''line'', JNum (int l)), (''column'', JNum (int c))])
        \<and> (sc = JUndefined \<or> (\<exists>t. sc = JStr t)))"
    unfolding getTrailFromErrorStack_def by (rule trailLoop_shape)
next
  show "exec errorTrailRE stack 0 = None \<longrightarrow>
        getTrailFromErrorStack E stack excludeCurrentModule = Inr (JObj [])"
    by (simp add: getTrailFromErrorStack_def trailLoop.simps)
next
  show "getTrailFromErrorStack E stack True = Inr (JObj []) \<longleftrightarrow> allExcluded E stack 0"
    unfolding getTrailFromErrorStack_def
    using trailLoop_excluded [of E stack 0] trailLoop_empty [of E stack True 0] by blast
next
  show "getTrailFromErrorStack E stack False = Inr (JObj []) \<longleftrightarrow>
        exec errorTrailRE stack 0 = None"
    unfolding getTrailFromErrorStack_def by (rule trailLoop_not_excluding)
next
  show "\<forall>sc p l c.
         getTrailFromErrorStack E stack True =
           Inr (JObj [(''scope'', sc), (''file'', JStr p), (''line'', l), (''column'', c)])
         \<longrightarrow> (\<exists>f. f \<noteq> filename E \<and> p = relative E (mainPath E) f)"
    unfolding getTrailFromErrorStack_def using trailLoop_kept [of E stack True 0] by blast
next
  show "\<forall>f e. frameAt stack 0 = Some (Some f, e) \<longrightarrow>
         (\<exists>sc l c. getTrailFromErrorStack E stack False =
            Inr (JObj [(''scope'', sc), (''file'', JStr (relative E (mainPath E) f)),
                       (''line'', l), (''column'', c)]))"
    unfolding getTrailFromErrorStack_def using trailLoop_first_frame [of stack _ _ E 0] by blast
qed

lemma exec_no_frame: "exec errorTrailRE ''no frame here'' 0 = None"
  by (simp add: exec_def errorTrailRE_def)

lemma trail_of_exampleStack:
  "getTrailFromErrorStack exampleEnv exampleStack True =
     Inr (JObj [(''scope'', JStr ''main''), (''file'', JStr ''main.js''),
                (''line'', JNum 3), (''column'', JNum 10)])"
  by code_simp

lemma own_frame_excluded:
  "allExcluded exampleEnv ''    at Logger.log (/app/lib/index.js:207:23)'' 0"
  by code_simp

lemma own_frame_found:
  "frameAt ''    at Logger.log (/app/lib/index.js:207:23)'' 0 = Some (Some ''/app/lib/index.js'', 44)"
  by code_simp

theorem getTrailFromErrorStack_shape_witness:
  "exec errorTrailRE ''no frame here'' 0 = None
   \<and> getTrailFromErrorStack exampleEnv ''no frame here'' True = Inr (JObj [])
   \<and> (\<exists>sc f l c.
        getTrailFromErrorStack exampleEnv exampleStack True =
          Inr (JObj [(''scope'', sc), (''file'', JStr f),
                     (''line'', JNum (int l)), (''column'', JNum (int c))]))
   \<and> allExcluded exampleEnv ''    at Logger.log (/app/lib/index.js:207:23)'' 0
   \<and> getTrailFromErrorStack exampleEnv ''    at Logger.log (/app/lib/index.js:207:23)'' True =
        Inr (JObj [])
   \<and> frameAt ''    at Logger.log (/app/lib/index.js:207:23)'' 0 =
        Some (Some ''/app/lib/index.js'', 44)
   \<and> (\<exists>sc l c.
        getTrailFromErrorStack exampleEnv ''    at Logger.log (/app/lib/index.js:207:23)'' False =
          Inr (JObj [(''scope'', sc),
                     (''file'', JStr (relative exampleEnv (mainPath exampleEnv) ''/app/lib/index.js'')),
                     (''line'', l), (''column'', c)]))
   \<and> getTrailFromErrorStack exampleEnv exampleStack True =
        Inr (JObj [(''scope'', JStr ''main''), (''file'', JStr ''main.js''),
                   (''line'', JNum 3), (''column'', JNum 10)])
   \<and> (\<exists>f. f \<noteq> filename exampleEnv \<and> ''main.js'' = relative exampleEnv (mainPath exampleEnv) f)
   \<and> \<not> allExcluded exampleEnv exampleStack 0"
proof -
  note no = getTrailFromErrorStack_shape [of exampleEnv "''no frame here''" True]
  note ex = getTrailFromErrorStack_shape [of exampleEnv exampleStack True]
  note own = getTrailFromErrorStack_shape
    [of exampleEnv "''    at Logger.log (/app/lib/index.js:207:23)''" True]
  from no exec_no_frame
  have a: "getTrailFromErrorStack exampleEnv ''no frame here'' True = Inr (JObj [])"
    by blast
  from ex trail_of_exampleStack
  have b: "\<exists>sc f l c.
        getTrailFromErrorStack exampleEnv exampleStack True =
          Inr (JObj [(''scope'', sc), (''file'', JStr f),
                     (''line'', JNum (int l)), (''column'', JNum (int c))])"
    by auto
  from own own_frame_excluded
  have c: "getTrailFromErrorStack exampleEnv ''    at Logger.log (/app/lib/index.js:207:23)'' True =
        Inr (JObj [])"
    by blast
  from own own_frame_found
  have d: "\<exists>sc l c.
        getTrailFromErrorStack exampleEnv ''    at Logger.log (/app/lib/index.js:207:23)'' False =
          Inr (JObj [(''scope'', sc),
                     (''file'', JStr (relative exampleEnv (mainPath exampleEnv) ''/app/lib/index.js'')),
                     (''line'', l), (''column'', c)])"
    by blast
  from ex trail_of_exampleStack
  have e: "\<exists>f. f \<noteq> filename exampleEnv \<and> ''main.js'' = relative exampleEnv (mainPath exampleEnv) f"
    by blast
  from ex trail_of_exampleStack
  have f: "\<not> allExcluded exampleEnv exampleStack 0"
    by auto
  from exec_no_frame a b own_frame_excluded c own_frame_found d trail_of_exampleStack e f
  show ?thesis by (intro conjI)
qed

text \<open>When every frame that matches is in the logging module, the flag leaves no trail.\<close>

lemma trail_all_excluded:
  "getTrailFromErrorStack exampleEnv ''    at Logger.log (/app/lib/index.js:207:23)'' True =
     Inr (JObj [])
   \<and> getTrailFromErrorStack exampleEnv ''    at Logger.log (/app/lib/index.js:207:23)'' False =
     Inr (JObj [(''scope'', JStr ''Logger.log''), (''file'', JStr ''lib/index.js''),
                (''line'', JNum 207), (''column'', JNum 23)])"
  by code_simp

subsection \<open>Level resolution\<close>

lemma getLevel_rank:
  "r \<in> {1, 2, 3, 4, 5} \<Longrightarrow> getLevel (JNum r) = Inr (JNum r)"
  by (elim insertE emptyE)
    (simp_all add: getLevel_def js_in_def logLevelNames_def intToString_def natToString.simps
      digitChar_def)

lemma getLevel_name:
  "(n, JNum r) \<in> set logLevels \<Longrightarrow> getLevel (JStr n) = Inr (JNum r)"
  by (auto simp: getLevel_def js_in_def js_get_def logLevelNames_def logLevels_def
      objectPrototype_def)

lemma getLevel_unknown:
  "toPropertyKey v = Some k \<Longrightarrow> k \<notin> fst ` set logLevels \<Longrightarrow> k \<notin> fst ` set logLevelNames \<Longrightarrow>
   k \<notin> set objectPrototype \<Longrightarrow> getLevel v = Inl UnknownLevel"
  by (simp add: getLevel_def js_in_def)

text \<open>
  C6. \<open>_getLevel\<close> tests its argument with \<open>in\<close>, which also finds the properties
  every object inherits: "toString" is neither a rank nor a level name, and
  \<open>_getLevel\<close> returns it unchanged where the claim has it fail with UnknownLevel.
\<close>

theorem getLevel_inherited_name:
  "getLevel (JStr ''toString'') = Inr (JStr ''toString'')"
  by (simp add: getLevel_def js_in_def logLevelNames_def objectPrototype_def)

subsection \<open>The event normaliser\<close>

lemma undefined_or_object:
  "js_typeof v \<in> set [''undefined'', ''object''] \<Longrightarrow> v \<noteq> JNull \<Longrightarrow> v = JUndefined \<or> truthy v"
  by (cases v) auto

lemma validLogArgs_not_nullish:
  "validLogArgs input context \<Longrightarrow> \<not> nullish input"
  by (auto simp: validLogArgs_def nullish_def)

lemma validLogArgs_context:
  assumes "validLogArgs input context"
  shows "context = JUndefined \<or> truthy context"
proof -
  from assms have "js_typeof context \<in> set [''undefined'', ''object'']" and "context \<noteq> JNull"
    by (simp_all add: validLogArgs_def)
  then show ?thesis by (rule undefined_or_object)
qed

lemma validLogArgs_object:
  assumes "validLogArgs input context" and "js_typeof input \<noteq> ''string''"
  shows "js_typeof input = ''object''"
    and "getProp input ''context'' = JUndefined \<or> truthy (getProp input ''context'')"
proof -
  from assms show "js_typeof input = ''object''" by (simp add: validLogArgs_def)
  from assms have "js_typeof (getProp input ''context'') \<in> set [''undefined'', ''object'']"
    and "getProp input ''context'' \<noteq> JNull"
    by (simp_all add: validLogArgs_def)
  then show "getProp input ''context'' = JUndefined \<or> truthy (getProp input ''context'')"
    by (rule undefined_or_object)
qed

lemma getLogValues_string:
  assumes "js_typeof input = ''string''"
    and "getTrailFromErrorStack E (errorStack E) True = Inr tr"
  shows "getLogValues E appName level colors input context =
     Inr \<lparr> ev_appName = appName, ev_level = level,
           ev_levelName = js_get logLevelNames level,
           ev_color = js_or (js_and colors (js_index colors level)) (js_get defaultColors level),
           ev_name = JUndefined, ev_message = input, ev_stack = JUndefined, ev_trail = tr,
           ev_context = js_or context (js_or JUndefined (JObj [])) \<rparr>"
  using assms by (simp add: getLogValues_def)

lemma getLogValues_object:
  assumes "js_typeof input \<noteq> ''string''" and "\<not> nullish input"
    and "getTrailFromErrorStack E
           (if truthy (getProp input ''stack'') then js_toString E (getProp input ''stack'')
            else errorStack E)
           (truthy (getProp input ''stack'')) = Inr tr"
  shows "getLogValues E appName level colors input context =
     Inr \<lparr> ev_appName = appName, ev_level = level,
           ev_levelName = js_get logLevelNames level,
           ev_color = js_or (js_and colors (js_index colors level)) (js_get defaultColors level),
           ev_name = getProp input ''name'', ev_message = getProp input ''message'',
           ev_stack = getProp input ''stack'', ev_trail = tr,
           ev_context = js_or context (js_or (getProp input ''context'') (JObj [])) \<rparr>"
  using assms by (simp add: getLogValues_def Let_def)

lemma getLogValues_trail:
  assumes "validLogArgs input context"
  shows "\<exists>logValues. getLogValues E appName level colors input context = Inr logValues \<and>
     Inr (ev_trail logValues) =
       (if js_typeof input = ''string'' then getTrailFromErrorStack E (errorStack E) True
        else if truthy (getProp input ''stack'')
             then getTrailFromErrorStack E (js_toString E (getProp input ''stack'')) True
             else getTrailFromErrorStack E (errorStack E) False)"
proof (cases "js_typeof input = ''string''")
  case True
  obtain tr where tr: "getTrailFromErrorStack E (errorStack E) True = Inr tr"
    using getTrailFromErrorStack_total by blast
  from getLogValues_string [OF True tr] True tr show ?thesis by simp
next
  case False
  from assms have n: "\<not> nullish input" by (rule validLogArgs_not_nullish)
  obtain tr where tr: "getTrailFromErrorStack E
           (if truthy (getProp input ''stack'') then js_toString E (getProp input ''stack'')
            else errorStack E)
           (truthy (getProp input ''stack'')) = Inr tr"
    using getTrailFromErrorStack_total by blast
  from getLogValues_object [OF False n tr] False tr show ?thesis
    by (cases "truthy (getProp input ''stack'')") simp_all
qed

text \<open>
  C1. With an object as input, \<open>_getLogValues\<close> passes \<open>Boolean(stack)\<close> as the
  exclude-self flag. An object without a stack has its trail taken from the fresh
  stack with self-exclusion disabled, so the trail is the frame of \<open>_getLogValues\<close>
  in the logging module itself, where the claim (and the branch for a plain string,
  which passes \<open>true\<close>) has the logging module's frames skipped. An explicit stack
  is parsed with self-exclusion enabled, where the claim has it disabled: of the
  stack of an error raised in \<open>Logger.log\<close> the trail is the frame of \<open>main\<close>.
\<close>

theorem getLogValues_object_trail:
  "getLogValues exampleEnv (JStr ''App'') (JNum 4) JUndefined
       (JObj [(''message'', JStr ''m'')]) JUndefined =
     Inr \<lparr> ev_appName = JStr ''App'', ev_level = JNum 4, ev_levelName = JStr ''ERROR'',
           ev_color = JStr ''#f00'', ev_name = JUndefined, ev_message = JStr ''m'',
           ev_stack = JUndefined,
           ev_trail = JObj [(''scope'', JStr ''_getLogValues''), (''file'', JStr ''lib/index.js''),
                            (''line'', JNum 108), (''column'', JNum 52)],
           ev_context = JObj [] \<rparr>
   \<and> getLogValues exampleEnv (JStr ''App'') (JNum 4) JUndefined
       (JObj [(''message'', JStr ''m''), (''stack'', JStr explicitStack)]) JUndefined =
     Inr \<lparr> ev_appName = JStr ''App'', ev_level = JNum 4, ev_levelName = JStr ''ERROR'',
           ev_color = JStr ''#f00'', ev_name = JUndefined, ev_message = JStr ''m'',
           ev_stack = JStr explicitStack,
           ev_trail = JObj [(''scope'', JStr ''main''), (''file'', JStr ''main.js''),
                            (''line'', JNum 7), (''column'', JNum 16)],
           ev_context = JObj [] \<rparr>"
  by code_simp

lemma getLogValues_string_trail:
  "getLogValues exampleEnv (JStr ''App'') (JNum 4) JUndefined (JStr ''m'') JUndefined =
     Inr \<lparr> ev_appName = JStr ''App'', ev_level = JNum 4, ev_levelName = JStr ''ERROR'',
           ev_color = JStr ''#f00'', ev_name = JUndefined, ev_message = JStr ''m'',
           ev_stack = JUndefined,
           ev_trail = JObj [(''scope'', JStr ''main''), (''file'', JStr ''main.js''),
                            (''line'', JNum 3), (''column'', JNum 10)],
           ev_context = JObj [] \<rparr>"
  by code_simp

text \<open>
  C3. For every valid log call the event has a context: the \<open>context\<close> argument
  when one is given, otherwise the \<open>context\<close> property of an input object when it
  has one, otherwise the empty object; it is never \<open>null\<close> and never \<open>undefined\<close>.
\<close>

theorem getLogValues_context:
  assumes "validLogArgs input context"
  shows "\<exists>logValues. getLogValues E appName level colors input context = Inr logValues
     \<and> ev_context logValues =
         (if context \<noteq> JUndefined then context
          else if js_typeof input = ''object'' \<and> getProp input ''context'' \<noteq> JUndefined
               then getProp input ''context''
               else JObj [])
     \<and> ev_context logValues \<noteq> JNull \<and> ev_context logValues \<noteq> JUndefined"
proof -
  from assms have c: "context = JUndefined \<or> truthy context"
    by (rule validLogArgs_context)
  show ?thesis
  proof (cases "js_typeof input = ''string''")
    case True
    obtain tr where tr: "getTrailFromErrorStack E (errorStack E) True = Inr tr"
      using getTrailFromErrorStack_total by blast
    from c show ?thesis
      unfolding getLogValues_string [OF True tr] using True
      by (auto simp: js_or_def)
  next
    case False
    from assms have n: "\<not> nullish input" by (rule validLogArgs_not_nullish)
    from assms False have o: "js_typeof input = ''object''"
      and oc: "getProp input ''context'' = JUndefined \<or> truthy (getProp input ''context'')"
      by (rule validLogArgs_object)+
    obtain tr where tr: "getTrailFromErrorStack E
           (if truthy (getProp input ''stack'') then js_toString E (getProp input ''stack'')
            else errorStack E)
           (truthy (getProp input ''stack'')) = Inr tr"
      using getTrailFromErrorStack_total by blast
    from c oc show ?thesis
      unfolding getLogValues_object [OF False n tr] using o
      by (auto simp: js_or_def)
  qed
qed

theorem getLogValues_context_witness:
  "validLogArgs (JObj [(''message'', JStr ''m''), (''context'', JObj [(''a'', JNum 1)])])
          (JObj [(''a'', JNum 2)])
   \<and> (\<exists>logValues.
         getLogValues exampleEnv (JStr ''App'') (JNum 4) JUndefined
           (JObj [(''message'', JStr ''m''), (''context'', JObj [(''a'', JNum 1)])])
           (JObj [(''a'', JNum 2)]) = Inr logValues
         \<and> ev_context logValues = JObj [(''a'', JNum 2)])"
proof -
  have v: "validLogArgs (JObj [(''message'', JStr ''m''), (''context'', JObj [(''a'', JNum 1)])])
          (JObj [(''a'', JNum 2)])"
    by code_simp
  from getLogValues_context [OF v, of exampleEnv "JStr ''App''" "JNum 4" JUndefined] v
  show ?thesis by auto
qed


subsection \<open>log\<close>

text \<open>
  C2. A valid call whose resolved level is below the logger's minimum returns
  \<open>undefined\<close> and calls neither the formatter nor \<open>send\<close>; so do \<open>debug\<close> and
  \<open>info\<close> with valid arguments on a logger whose minimum is WARNING (the rank 3, or
  the text "3" when the configuration gave it so).
\<close>

theorem log_below_minLevel:
  "(validLogCall level input context \<and> getLevel level = Inr safeLevel
      \<and> js_lt E safeLevel (lg_minLevel this)
      \<longrightarrow> log E this level input context = (Inr JUndefined, []))
   \<and> (validLogArgs input context
        \<and> (lg_minLevel this = JNum 3 \<or> lg_minLevel this = JStr ''3'')
      \<longrightarrow> debug E this input context = (Inr JUndefined, [])
          \<and> info E this input context = (Inr JUndefined, []))"
proof (intro conjI impI)
  assume "validLogCall level input context \<and> getLevel level = Inr safeLevel
      \<and> js_lt E safeLevel (lg_minLevel this)"
  then show "log E this level input context = (Inr JUndefined, [])"
    by (simp add: log_def)
next
  assume a: "validLogArgs input context
        \<and> (lg_minLevel this = JNum 3 \<or> lg_minLevel this = JStr ''3'')"
  have l1: "js_get logLevels (JStr ''DEBUG'') = JNum 1" "js_get logLevels (JStr ''INFO'') = JNum 2"
    by (simp_all add: js_get_def logLevels_def)
  have g: "getLevel (JNum 1) = Inr (JNum 1)" "getLevel (JNum 2) = Inr (JNum 2)"
    by (simp_all add: getLevel_rank)
  have v: "validLogCall (JNum 1) input context" "validLogCall (JNum 2) input context"
    using a g by (auto simp: validLogCall_def getLevel_def split: if_splits)
  have lt: "js_lt E (JNum 1) (lg_minLevel this)" "js_lt E (JNum 2) (lg_minLevel this)"
    using a by (auto simp: js_lt_def stringToNumber_def isSpace_def isDigit_def digitsValue_def digitVal_def)
  show "debug E this input context = (Inr JUndefined, [])"
    using v g lt by (simp add: debug_def log_def l1)
  show "info E this input context = (Inr JUndefined, [])"
    using v g lt by (simp add: info_def log_def l1)
qed

theorem log_below_minLevel_witness:
  "validLogCall (JStr ''INFO'') (JStr ''hello'') JUndefined
   \<and> getLevel (JStr ''INFO'') = Inr (JNum 2)
   \<and> js_lt exampleEnv (JNum 2) (lg_minLevel exampleLogger)
   \<and> log exampleEnv exampleLogger (JStr ''INFO'') (JStr ''hello'') JUndefined = (Inr JUndefined, [])
   \<and> validLogArgs (JStr ''hello'') JUndefined
   \<and> lg_minLevel exampleLogger = JNum 3
   \<and> debug exampleEnv exampleLogger (JStr ''hello'') JUndefined = (Inr JUndefined, [])
   \<and> info exampleEnv exampleLogger (JStr ''hello'') JUndefined = (Inr JUndefined, [])"
proof -
  have a: "validLogCall (JStr ''INFO'') (JStr ''hello'') JUndefined" by code_simp
  have b: "getLevel (JStr ''INFO'') = Inr (JNum 2)" by code_simp
  have c: "js_lt exampleEnv (JNum 2) (lg_minLevel exampleLogger)" by code_simp
  have d: "validLogArgs (JStr ''hello'') JUndefined" by code_simp
  have e: "lg_minLevel exampleLogger = JNum 3" by (simp add: exampleLogger_def)
  from log_below_minLevel [of "JStr ''INFO''" "JStr ''hello''" JUndefined "JNum 2" exampleEnv exampleLogger]
    a b c d e
  show ?thesis by simp
qed

lemma log_formatter_raises:
  assumes "validLogCall level input context" and "getLevel level = Inr safeLevel"
    and "\<not> js_lt E safeLevel (lg_minLevel this)"
    and "getLogValues E (lg_appName this) safeLevel (lg_colors this) input context = Inr logValues"
    and "lg_format this = JFun f" and "callFormat E f logValues = Inl err"
  shows "log E this level input context =
     (Inl (if nullish err then TypeError else InvalidFormatter), [FormatCalled f logValues])"
  using assms by (simp add: log_def invokeFormat_def)


lemma log_formats_event:
  assumes "validLogCall level input context" and "getLevel level = Inr safeLevel"
    and "\<not> js_lt E safeLevel (lg_minLevel this)" and "lg_format this = JFun f"
  shows "\<exists>logValues rest.
     getLogValues E (lg_appName this) safeLevel (lg_colors this) input context = Inr logValues
     \<and> snd (log E this level input context) = FormatCalled f logValues # rest"
proof -
  from assms(1) have "validLogArgs input context" by (simp add: validLogCall_def)
  from getLogValues_trail [OF this] obtain logValues where
    "getLogValues E (lg_appName this) safeLevel (lg_colors this) input context = Inr logValues"
    by blast
  with assms show ?thesis
    by (auto simp: log_def invokeFormat_def split: sum.splits prod.splits)
qed

text \<open>
  C8. The \<open>catch\<close> around the formatter builds its error from \<open>err.message\<close>. A
  formatter that throws \<open>undefined\<close> makes that read raise a TypeError, and \<open>log\<close>
  fails with the TypeError where the claim has it fail with the "Failed to format
  log event body" error. \<open>send\<close> is not called. (A formatter that throws an object
  gets the error of the claim: \<open>log_formatter_raises\<close>.)
\<close>

theorem log_formatter_throws_undefined:
  "log exampleEnv (exampleLogger\<lparr>lg_format := JFun (User 1)\<rparr>) (JNum 4) (JStr ''m'') JUndefined =
     (Inl TypeError,
      [FormatCalled (User 1)
         \<lparr> ev_appName = JStr ''App'', ev_level = JNum 4, ev_levelName = JStr ''ERROR'',
           ev_color = JStr ''#f00'', ev_name = JUndefined, ev_message = JStr ''m'',
           ev_stack = JUndefined,
           ev_trail = JObj [(''scope'', JStr ''main''), (''file'', JStr ''main.js''),
                            (''line'', JNum 3), (''column'', JNum 10)],
           ev_context = JObj [] \<rparr>])"
  by code_simp

lemma log_formatter_throws_error:
  "fst (log exampleEnv (exampleLogger\<lparr>lg_format := JFun (User 2)\<rparr>) (JNum 4) (JStr ''m'') JUndefined) =
     Inl InvalidFormatter"
  by code_simp

subsection \<open>setConfig\<close>



lemma getFormat_accepted:
  "js_typeof format = ''function'' \<or> js_in format logFormats \<or> js_in format logFormatNames \<Longrightarrow>
   \<exists>f. getFormat format = Inr f"
  by (auto simp: getFormat_def)

lemma getLevel_accepted:
  "js_in minLevel logLevels \<or> js_in minLevel logLevelNames \<Longrightarrow> \<exists>l. getLevel minLevel = Inr l"
  by (auto simp: getLevel_def)





text \<open>The two outcomes of \<open>setConfig\<close>: it raises and leaves the logger as it was, or it stores all five fields.\<close>

lemma setConfig_cases:
  fixes this config
  defines "send \<equiv> destructure config ''send'' (lg_send this)"
    and "format \<equiv> destructure config ''format'' (js_or (lg_format this) (js_get logFormats (JStr ''SLACK'')))"
    and "appName \<equiv> destructure config ''appName'' (js_or (lg_appName this) (JStr ''My App''))"
    and "minLevel \<equiv> destructure config ''minLevel'' (js_or (lg_minLevel this) (js_get logLevels (JStr ''WARNING'')))"
    and "colors \<equiv> destructure config ''colors'' (lg_colors this)"
  shows "(setConfig this config = (Inl InvalidConfig, this)
          \<and> (nullish config \<or> \<not> configAccepted send format appName minLevel colors))
       \<or> (\<exists>f l. \<not> nullish config \<and> configAccepted send format appName minLevel colors
             \<and> getFormat format = Inr f \<and> getLevel minLevel = Inr l
             \<and> setConfig this config =
                 (Inr (), \<lparr> lg_send = send, lg_format = f, lg_appName = appName,
                            lg_minLevel = l, lg_colors = colors \<rparr>))"
proof (cases "nullish config \<or> \<not> configAccepted send format appName minLevel colors")
  case True
  then have "setConfig this config = (Inl InvalidConfig, this)"
    unfolding send_def format_def appName_def minLevel_def colors_def
    by (auto simp: setConfig_def Let_def)
  with True show ?thesis by blast
next
  case False
  then have n: "\<not> nullish config" and a: "configAccepted send format appName minLevel colors"
    by auto
  from a obtain f where f: "getFormat format = Inr f"
    using getFormat_accepted [of format] by (auto simp: configAccepted_def)
  from a obtain l where l: "getLevel minLevel = Inr l"
    using getLevel_accepted [of minLevel] by (auto simp: configAccepted_def)
  have "setConfig this config =
          (Inr (), \<lparr> lg_send = send, lg_format = f, lg_appName = appName,
                     lg_minLevel = l, lg_colors = colors \<rparr>)"
    using n a f l unfolding send_def format_def appName_def minLevel_def colors_def
    by (simp add: setConfig_def Let_def)
  with n a f l show ?thesis by blast
qed

lemma setConfig_atomic:
  assumes "fst (setConfig this config) = Inl e"
  shows "snd (setConfig this config) = this \<and> e = InvalidConfig"
  using setConfig_cases [of this config] assms by auto








lemma setConfig_keeps_appName:
  assumes "validConfiguration this" and "getProp config ''appName'' = JUndefined"
  shows "lg_appName (snd (setConfig this config)) = lg_appName this"
  using setConfig_cases [of this config] assms
  by (auto simp: destructure_def js_or_def validConfiguration_def)








text \<open>
  C9. \<open>setConfig\<close> never stores part of a configuration (\<open>setConfig_atomic\<close>), but
  it does not raise on every argument the claim lists: a number in place of the
  configuration object is destructured like an empty object, so on a configured
  logger \<open>setConfig(5)\<close> returns normally; and the format "toString" passes the
  \<open>in\<close> test through \<open>Object.prototype\<close>, so it is accepted and stored as the
  inherited method.
\<close>

theorem setConfig_accepts_invalid:
  "setConfig exampleLogger (JNum 5) = (Inr (), exampleLogger)
   \<and> setConfig newObject (JObj [(''send'', JFun (User 0)), (''format'', JStr ''toString'')]) =
       (Inr (), \<lparr> lg_send = JFun (User 0), lg_format = JFun (Native ''toString''),
                  lg_appName = JStr ''My App'', lg_minLevel = JNum 3, lg_colors = JUndefined \<rparr>)"
  by code_simp

subsection \<open>The registry\<close>

text \<open>
  C5. \<open>getLogger\<close> tests \<open>id in _loggers\<close>, which also finds the properties
  \<open>_loggers\<close> inherits: for the key "toString", never configured, \<open>getLogger\<close>
  returns the inherited method where the claim has it fail with NotConfigured. A
  key that is neither configured nor inherited does fail
  (\<open>getLogger_not_configured\<close>), and a configured logger is found again unchanged
  (\<open>getLogger_again\<close>).
\<close>

theorem getLogger_inherited_key:
  "getLogger (JStr ''toString'') JUndefined Map.empty =
     (Inr (Inherited (JFun (Native ''toString''))), Map.empty)"
  by (simp add: getLogger_def loggerId_def inRegistry_def objectPrototype_def inherited_def)

lemma getLogger_not_configured:
  assumes "js_typeof idOrConfig \<noteq> ''object''"
    and "\<not> inRegistry (loggerId idOrConfig) loggers"
  shows "getLogger idOrConfig JUndefined loggers = (Inl NotConfigured, loggers)"
  using assms by (simp add: getLogger_def)

lemma getLogger_default_not_configured:
  assumes "loggers Default = None"
  shows "getLogger JUndefined JUndefined loggers = (Inl NotConfigured, loggers)"
  using assms by (simp add: getLogger_def loggerId_def inRegistry_def)

lemma getLogger_again:
  assumes "getLogger idOrConfig config loggers = (Inr (LoggerAt k), loggers')"
    and "js_typeof idOrConfig \<noteq> ''object''"
  shows "getLogger idOrConfig JUndefined loggers' = (Inr (LoggerAt k), loggers')
         \<and> loggers' k \<noteq> None \<and> k = loggerId idOrConfig"
  using assms
  by (auto simp: getLogger_def Let_def inRegistry_def
      split: if_splits option.splits prod.splits sum.splits)

lemma natToString_digit: "\<exists>d t. natToString n = d # t \<and> isDigit d"
proof (induction n rule: natToString.induct)
  case (1 n)
  show ?case
  proof (cases "n < 10")
    case True
    then have "n \<in> {0, 1, 2, 3, 4, 5, 6, 7, 8, 9}" by auto
    then have "isDigit (digitChar n)"
      by (elim insertE emptyE) (simp_all add: digitChar_def isDigit_def)
    with True show ?thesis by (subst natToString.simps) simp
  next
    case False
    with "1.IH" obtain d t where "natToString (n div 10) = d # t" "isDigit d" by auto
    with False show ?thesis by (subst natToString.simps) simp
  qed
qed

lemma number_key_not_inherited:
  assumes "js_typeof n = ''number''" and "toPropertyKey n = Some s"
  shows "s \<notin> set objectPrototype"
proof (cases n)
  case (JNum i)
  obtain d t where dt: "natToString (nat (if i < 0 then - i else i)) = d # t" and d: "isDigit d"
    using natToString_digit by blast
  from JNum assms(2) dt have "\<exists>c u. s = c # u \<and> (c = CHR ''-'' \<or> isDigit c)"
    using d by (auto simp: intToString_def split: if_splits)
  then show ?thesis by (auto simp: objectPrototype_def isDigit_def)
next
  case JNaN
  with assms(2) show ?thesis by (auto simp: objectPrototype_def)
qed (use assms in auto)

text \<open>
  C10. A number \<open>n\<close> and its text name the same slot of the registry: \<open>getLogger\<close>
  does the same with either as its id, whatever the configuration and the
  registry. So when \<open>getLogger(n, config)\<close> succeeds, \<open>getLogger\<close> with the text of
  \<open>n\<close> returns the same logger and leaves the registry as it is.
\<close>

theorem getLogger_number_key:
  assumes "js_typeof n = ''number''" and "toPropertyKey n = Some s"
    and "getLogger n config loggers = (Inr h, loggers')"
  shows "getLogger (JStr s) JUndefined loggers' = (Inr h, loggers')
         \<and> h = LoggerAt (Key s) \<and> loggers' (Key s) \<noteq> None
         \<and> loggerId n = loggerId (JStr s)
         \<and> (\<forall>c r. getLogger n c r = getLogger (JStr s) c r)"
proof -
  from assms(1,2) have id: "loggerId n = Key s" by (simp add: loggerId_def)
  have ids: "loggerId (JStr s) = Key s" by (simp add: loggerId_def)
  from number_key_not_inherited [OF assms(1,2)]
  have reg: "\<And>r. inRegistry (Key s) r = (r (Key s) \<noteq> None)"
    by (simp add: inRegistry_def split: option.splits)
  from assms(1) have no: "js_typeof n \<noteq> ''object''" by simp
  from assms(3) no have h: "h = LoggerAt (Key s)" and l: "loggers' (Key s) \<noteq> None"
    by (auto simp: getLogger_def Let_def id reg
        split: if_splits option.splits prod.splits sum.splits)
  from l have "getLogger (JStr s) JUndefined loggers' = (Inr (LoggerAt (Key s)), loggers')"
    by (auto simp: getLogger_def ids reg)
  moreover have "getLogger n c r = getLogger (JStr s) c r" for c r
    using no by (simp add: getLogger_def id ids)
  ultimately show ?thesis using h l id ids by simp
qed

theorem getLogger_number_key_witness:
  "js_typeof (JNum 7) = ''number'' \<and> toPropertyKey (JNum 7) = Some ''7''
   \<and> fst (getLogger (JNum 7) (JObj [(''send'', JFun (User 0))]) Map.empty) = Inr (LoggerAt (Key ''7''))
   \<and> getLogger (JStr ''7'') JUndefined
        (snd (getLogger (JNum 7) (JObj [(''send'', JFun (User 0))]) Map.empty)) =
       (Inr (LoggerAt (Key ''7'')),
        snd (getLogger (JNum 7) (JObj [(''send'', JFun (User 0))]) Map.empty))"
proof -
  have a: "js_typeof (JNum 7) = ''number''" by simp
  have b: "toPropertyKey (JNum 7) = Some ''7''" by code_simp
  have c: "fst (getLogger (JNum 7) (JObj [(''send'', JFun (User 0))]) Map.empty) = Inr (LoggerAt (Key ''7''))"
    by code_simp
  then have d: "getLogger (JNum 7) (JObj [(''send'', JFun (User 0))]) Map.empty =
      (Inr (LoggerAt (Key ''7'')), snd (getLogger (JNum 7) (JObj [(''send'', JFun (User 0))]) Map.empty))"
    by (metis prod.collapse)
  from getLogger_number_key [OF a b d]
  have e: "getLogger (JStr ''7'') JUndefined
        (snd (getLogger (JNum 7) (JObj [(''send'', JFun (User 0))]) Map.empty)) =
       (Inr (LoggerAt (Key ''7'')),
        snd (getLogger (JNum 7) (JObj [(''send'', JFun (User 0))]) Map.empty))"
    by (rule conjunct1)
  from a b c e show ?thesis by (intro conjI)
qed

end
